theory Spec2Isabelle
  imports Complex_Main "HOL-Library.Log_Nat" "HOL-Library.Word"
begin

section \<open>Python values used by print\_image.py\<close>

text \<open>
  The exceptions the script can meet, grouped by what its two handlers test:
  \<^verbatim>\<open>except ConnectionError\<close> and \<^verbatim>\<open>except Exception\<close>.  \<open>Interrupt\<close> stands for
  an exception that derives from \<^verbatim>\<open>BaseException\<close> only (\<^verbatim>\<open>KeyboardInterrupt\<close>,
  \<^verbatim>\<open>SystemExit\<close>), which neither handler catches.
\<close>

datatype exn =
    ZeroDivisionError
  | OverflowError
  | ConnectionError string
  | Error string
  | Interrupt string

fun is_ConnectionError :: "exn \<Rightarrow> bool" where
  "is_ConnectionError (ConnectionError _) = True"
| "is_ConnectionError _ = False"

fun is_Exception :: "exn \<Rightarrow> bool" where
  "is_Exception (Interrupt _) = False"
| "is_Exception _ = True"

subsection \<open>Double-precision arithmetic of \<^verbatim>\<open>max_width / img.width\<close> and \<^verbatim>\<open>img.height * ratio\<close>\<close>

text \<open>
  A Python float is an IEEE 754 binary64 number.  A finite one is modelled by the rational it
  denotes; every operation computes the exact result and rounds it to the nearest number with
  a 53-bit significand, ties to even, with gradual underflow below \<open>2\<^sup>-\<^sup>1\<^sup>0\<^sup>2\<^sup>2\<close> and overflow
  from \<open>2\<^sup>1\<^sup>0\<^sup>2\<^sup>4\<close> on.
\<close>

datatype float64 = Finite rat | PosInf | NegInf

definition pow2 :: "int \<Rightarrow> rat" where
  "pow2 e = (if 0 \<le> e then 2 ^ nat e else 1 / 2 ^ nat (- e))"

definition round_half_even :: "rat \<Rightarrow> int" where
  "round_half_even y =
     (let f = \<lfloor>y\<rfloor>; r = y - of_int f
      in if r < 1 / 2 then f else if 1 / 2 < r then f + 1 else if even f then f else f + 1)"

text \<open>\<open>ilog2 q\<close> is the exponent \<open>e\<close> with \<open>2\<^sup>e \<le> q < 2\<^sup>e\<^sup>+\<^sup>1\<close>, for \<open>q > 0\<close>.\<close>

definition ilog2 :: "rat \<Rightarrow> int" where
  "ilog2 q = (if 1 \<le> q then int (floorlog 2 (nat \<lfloor>q\<rfloor>)) - 1
              else - int (floorlog 2 (nat (\<lceil>1 / q\<rceil> - 1))))"

definition round_double :: "rat \<Rightarrow> float64" where
  "round_double q =
     (if q = 0 then Finite 0
      else let e = ilog2 \<bar>q\<bar>;
               p = max (e - 52) (- 1074);
               m = round_half_even (\<bar>q\<bar> / pow2 p);
               r = of_int m * pow2 p
           in if pow2 1024 \<le> r then (if 0 < q then PosInf else NegInf)
              else Finite (sgn q * r))"

text \<open>\<^verbatim>\<open>a / b\<close> on two ints: the correctly rounded quotient, or an exception.\<close>

definition py_truediv :: "int \<Rightarrow> int \<Rightarrow> exn + rat" where
  "py_truediv a b =
     (if b = 0 then Inl ZeroDivisionError
      else case round_double (of_int a / of_int b) of
             Finite r \<Rightarrow> Inr r
           | _ \<Rightarrow> Inl OverflowError)"

text \<open>\<^verbatim>\<open>n * x\<close> with an int and a float: the int is converted first (which raises when it
  is too large), then the product is rounded; an overflowing product is an infinity.\<close>

definition py_float_of_int :: "int \<Rightarrow> exn + rat" where
  "py_float_of_int n =
     (case round_double (of_int n) of Finite r \<Rightarrow> Inr r | _ \<Rightarrow> Inl OverflowError)"

definition py_mul_int_float :: "int \<Rightarrow> rat \<Rightarrow> exn + float64" where
  "py_mul_int_float n x =
     (case py_float_of_int n of Inl e \<Rightarrow> Inl e | Inr y \<Rightarrow> Inr (round_double (y * x)))"

text \<open>\<^verbatim>\<open>int(x)\<close> truncates towards zero and raises on an infinity.\<close>

definition py_int :: "float64 \<Rightarrow> exn + int" where
  "py_int x =
     (case x of
        Finite r \<Rightarrow> Inr (if 0 \<le> r then \<lfloor>r\<rfloor> else \<lceil>r\<rceil>)
      | _ \<Rightarrow> Inl OverflowError)"

section \<open>Images and the imaging library\<close>

text \<open>
  A PIL image is modelled by its size, its mode and its pixel content; the content is kept
  abstract (\<open>'p\<close>), since the script never looks at it.  The library calls the script makes
  are collaborators: \<open>im_open\<close> is \<^verbatim>\<open>Image.open\<close>, \<open>im_convert\<close> and \<open>im_resize\<close> give the
  pixel content \<^verbatim>\<open>img.convert\<close> and \<^verbatim>\<open>img.resize\<close> produce, or the exception they raise.
  What the model fixes is the library's contract on sizes and modes: \<^verbatim>\<open>convert(m)\<close>
  returns an image of the same size in mode \<open>m\<close>, \<^verbatim>\<open>resize((w, h))\<close> returns an image of
  size \<open>(w, h)\<close> in the same mode.
\<close>

record 'p image =
  width :: int
  height :: int
  mode :: string
  content :: 'p

record 'p pil =
  im_open :: "string \<Rightarrow> exn + 'p image"
  im_convert :: "'p image \<Rightarrow> string \<Rightarrow> exn + 'p"
  im_resize :: "'p image \<Rightarrow> int \<Rightarrow> int \<Rightarrow> exn + 'p"

definition pil_convert :: "'p pil \<Rightarrow> 'p image \<Rightarrow> string \<Rightarrow> exn + 'p image" where
  "pil_convert lib img m =
     (case im_convert lib img m of
        Inl e \<Rightarrow> Inl e
      | Inr px \<Rightarrow> Inr (img\<lparr>mode := m, content := px\<rparr>))"

definition pil_resize :: "'p pil \<Rightarrow> 'p image \<Rightarrow> int \<Rightarrow> int \<Rightarrow> exn + 'p image" where
  "pil_resize lib img w h =
     (case im_resize lib img w h of
        Inl e \<Rightarrow> Inl e
      | Inr px \<Rightarrow> Inr (img\<lparr>width := w, height := h, content := px\<rparr>))"


section \<open>What a run prints and calls\<close>

text \<open>The lines the script prints, one constructor per \<^verbatim>\<open>print\<close> statement of
  \<^verbatim>\<open>print_image_to_network_printer\<close>; \<open>ErrHint\<close> is the second line of the connection
  error, and \<open>Banner\<close> stands for the seven lines \<^verbatim>\<open>main\<close> prints before the call (lines
  101 to 107).\<close>

datatype message =
    ErrNotFound string
  | Opening string
  | OriginalSize int int
  | Scaled int int
  | Connecting string int string
  | WarnProfile string
  | Printing
  | Success
  | ErrConnect string int
  | ErrHint
  | ErrPrinting exn
  | Banner string int string string

text \<open>The calls on the printer library, and the events of a run: a printed line, or a call
  together with the exception it raised (\<open>None\<close> when it returned).\<close>

datatype 'p call =
    Network string int "string option"
  | PrImage "'p image"
  | PrLn int
  | PrCut
  | PrClose

datatype 'p event = Output message | Called "'p call" "exn option"

type_synonym ('p, 'a) run = "'p event list \<times> (exn + 'a)"

definition say :: "message \<Rightarrow> ('p, unit) run" where
  "say m = ([Output m], Inr ())"

definition lift :: "exn + 'a \<Rightarrow> ('p, 'a) run" where
  "lift r = ([], r)"

definition call :: "'p call \<Rightarrow> exn option \<Rightarrow> ('p, unit) run" where
  "call c r = ([Called c r], (case r of None \<Rightarrow> Inr () | Some e \<Rightarrow> Inl e))"

text \<open>Sequencing: the second step runs only when the first one returned.\<close>

definition bind :: "('p, 'a) run \<Rightarrow> ('a \<Rightarrow> ('p, 'b) run) \<Rightarrow> ('p, 'b) run" where
  "bind m f =
     (case m of
        (t, Inl e) \<Rightarrow> (t, Inl e)
      | (t, Inr x) \<Rightarrow> (case f x of (t', r) \<Rightarrow> (t @ t', r)))"

section \<open>The image normalizer (lines 35 to 45)\<close>

text \<open>\<^verbatim>\<open>if img.mode != 'RGB': img = img.convert('RGB')\<close>\<close>

definition to_rgb :: "'p pil \<Rightarrow> 'p image \<Rightarrow> exn + 'p image" where
  "to_rgb lib img = (if mode img \<noteq> ''RGB'' then pil_convert lib img ''RGB'' else Inr img)"

text \<open>\<^verbatim>\<open>ratio = max_width / img.width; new_height = int(img.height * ratio)\<close>\<close>

definition new_height :: "int \<Rightarrow> int \<Rightarrow> int \<Rightarrow> exn + int" where
  "new_height w h max_width =
     (case py_truediv max_width w of
        Inl e \<Rightarrow> Inl e
      | Inr ratio \<Rightarrow>
          (case py_mul_int_float h ratio of
             Inl e \<Rightarrow> Inl e
           | Inr x \<Rightarrow> py_int x))"

text \<open>The block under \<^verbatim>\<open>if img.width != max_width\<close>.\<close>

definition scale :: "'p pil \<Rightarrow> 'p image \<Rightarrow> int \<Rightarrow> ('p, 'p image) run" where
  "scale lib img max_width =
     (if width img \<noteq> max_width then
        bind (lift (new_height (width img) (height img) max_width)) (\<lambda>nh.
        bind (lift (pil_resize lib img max_width nh)) (\<lambda>img'.
        bind (say (Scaled max_width nh)) (\<lambda>_.
        lift (Inr img'))))
      else lift (Inr img))"

text \<open>Lines 35 to 45 together: the \<open>normalize\<close> of the specification (\<open>normalize\<close> itself
  is a constant of HOL).  Its value is the image the rest of the function prints.\<close>

definition normalize_image :: "'p pil \<Rightarrow> 'p image \<Rightarrow> int \<Rightarrow> ('p, 'p image) run" where
  "normalize_image lib img max_width =
     bind (lift (to_rgb lib img)) (\<lambda>img1.
     bind (say (OriginalSize (width img1) (height img1))) (\<lambda>_.
     scale lib img1 max_width))"

section \<open>The print session (lines 25 to 73)\<close>

text \<open>
  The world outside the script: the file system, the imaging library, and the printer
  library.  \<open>path_exists path\<close> is the outcome of \<^verbatim>\<open>Path(path).exists()\<close>: \<open>True\<close> or
  \<open>False\<close>, or the \<^verbatim>\<open>OSError\<close> that \<^verbatim>\<open>exists\<close> lets through (it swallows only the errors
  that mean "no such file").  \<open>network ip port profile\<close> is the outcome of constructing
  \<^verbatim>\<open>Network(ip, port=port, profile=profile)\<close> (profile \<open>None\<close>: the keyword is left out);
  \<open>pr_image\<close>, \<open>pr_ln\<close>, \<open>pr_cut\<close> and \<open>pr_close\<close> are the outcomes of the four calls on
  the printer object.  \<open>None\<close> means the call returned.
\<close>

record 'p world =
  path_exists :: "string \<Rightarrow> exn + bool"
  imaging :: "'p pil"
  network :: "string \<Rightarrow> int \<Rightarrow> string option \<Rightarrow> exn option"
  pr_image :: "'p image \<Rightarrow> exn option"
  pr_ln :: "int \<Rightarrow> exn option"
  pr_cut :: "exn option"
  pr_close :: "exn option"

text \<open>
  Lines 49 to 53: the inner \<^verbatim>\<open>try\<close>.  Any \<^verbatim>\<open>Exception\<close> raised by the constructor
  with the profile prints the warning and constructs the printer without a profile; an
  exception of the second constructor, raised inside the handler, leaves the inner
  \<^verbatim>\<open>try\<close>.
\<close>

definition connect :: "'p world \<Rightarrow> string \<Rightarrow> int \<Rightarrow> string \<Rightarrow> ('p, unit) run" where
  "connect w ip port profile =
     (case call (Network ip port (Some profile)) (network w ip port (Some profile)) of
        (t, Inl e) \<Rightarrow>
          (if is_Exception e then
             bind (t, Inr ()) (\<lambda>_.
             bind (say (WarnProfile profile)) (\<lambda>_.
             call (Network ip port None) (network w ip port None)))
           else (t, Inl e))
      | (t, Inr u) \<Rightarrow> (t, Inr u))"

text \<open>Lines 56 to 62: the three calls that write to the printer, and the close.\<close>

definition send :: "'p world \<Rightarrow> 'p image \<Rightarrow> ('p, unit) run" where
  "send w img =
     bind (say Printing) (\<lambda>_.
     bind (call (PrImage img) (pr_image w img)) (\<lambda>_.
     bind (call (PrLn 1) (pr_ln w 1)) (\<lambda>_.
     bind (call PrCut (pr_cut w)) (\<lambda>_.
     call PrClose (pr_close w)))))"

text \<open>The body of the outer \<^verbatim>\<open>try\<close>, lines 26 to 65; its value is what it returns.  The
  call of \<^verbatim>\<open>exists\<close> on line 27 is inside the \<^verbatim>\<open>try\<close>: an exception it raises goes to the
  handlers like any other.\<close>

definition try_body ::
  "'p world \<Rightarrow> string \<Rightarrow> string \<Rightarrow> int \<Rightarrow> string \<Rightarrow> int \<Rightarrow> ('p, bool) run" where
  "try_body w image_path printer_ip printer_port profile max_width =
     bind (lift (path_exists w image_path)) (\<lambda>found.
     if \<not> found then
       bind (say (ErrNotFound image_path)) (\<lambda>_. lift (Inr False))
     else
       bind (say (Opening image_path)) (\<lambda>_.
       bind (lift (im_open (imaging w) image_path)) (\<lambda>img0.
       bind (normalize_image (imaging w) img0 max_width) (\<lambda>img.
       bind (say (Connecting printer_ip printer_port profile)) (\<lambda>_.
       bind (connect w printer_ip printer_port profile) (\<lambda>_.
       bind (send w img) (\<lambda>_.
       bind (say Success) (\<lambda>_.
       lift (Inr True)))))))))"

text \<open>Lines 67 to 73: the two handlers of the outer \<^verbatim>\<open>try\<close>, in the source's order.  An
  exception neither of them matches leaves the function.\<close>

definition print_image_to_network_printer ::
  "'p world \<Rightarrow> string \<Rightarrow> string \<Rightarrow> int \<Rightarrow> string \<Rightarrow> int \<Rightarrow> ('p, bool) run" where
  "print_image_to_network_printer w image_path printer_ip printer_port profile max_width =
     (case try_body w image_path printer_ip printer_port profile max_width of
        (t, Inr b) \<Rightarrow> (t, Inr b)
      | (t, Inl e) \<Rightarrow>
          (if is_ConnectionError e then
             (t @ [Output (ErrConnect printer_ip printer_port), Output ErrHint], Inr False)
           else if is_Exception e then
             (t @ [Output (ErrPrinting e)], Inr False)
           else (t, Inl e)))"

text \<open>
  \<^verbatim>\<open>main\<close>, lines 98 to 118, after \<^verbatim>\<open>parse_args\<close>: the banner, the call, and
  \<^verbatim>\<open>sys.exit(0 if success else 1)\<close>.  The value is the exit status; an exception that
  left the function leaves \<^verbatim>\<open>main\<close> too.
\<close>

record args =
  arg_printer_ip :: string
  arg_image_path :: string
  arg_port :: int
  arg_profile :: string
  arg_width :: int

definition main :: "'p world \<Rightarrow> args \<Rightarrow> ('p, int) run" where
  "main w a =
     bind (say (Banner (arg_printer_ip a) (arg_port a) (arg_profile a) (arg_image_path a))) (\<lambda>_.
     bind (print_image_to_network_printer w (arg_image_path a) (arg_printer_ip a)
             (arg_port a) (arg_profile a) (arg_width a)) (\<lambda>success.
     lift (Inr (if success then 0 else 1))))"

text \<open>What a trace says about the network: the constructor calls made, the calls on the
  printer, and whether a printer that was constructed has been closed.\<close>

fun is_network_call :: "'p event \<Rightarrow> bool" where
  "is_network_call (Called (Network _ _ _) _) = True"
| "is_network_call _ = False"

fun printer_calls :: "'p event list \<Rightarrow> 'p call list" where
  "printer_calls [] = []"
| "printer_calls (Called (Network ip port pr) r # es) = printer_calls es"
| "printer_calls (Called c r # es) = c # printer_calls es"
| "printer_calls (Output m # es) = printer_calls es"

text \<open>\<open>socket_open es held\<close>: after the events \<open>es\<close>, is a printer object that a
  constructor returned still unclosed?  (\<open>held\<close> is the answer before \<open>es\<close>.)\<close>

fun socket_open :: "'p event list \<Rightarrow> bool \<Rightarrow> bool" where
  "socket_open [] held = held"
| "socket_open (Called (Network ip port pr) None # es) held = socket_open es True"
| "socket_open (Called PrClose r # es) held = socket_open es False"
| "socket_open (e # es) held = socket_open es held"

text \<open>The lines that report a failure: the four \<^verbatim>\<open>Error\<close> prints of the script.\<close>

fun is_error_message :: "message \<Rightarrow> bool" where
  "is_error_message (ErrNotFound _) = True"
| "is_error_message (ErrConnect _ _) = True"
| "is_error_message ErrHint = True"
| "is_error_message (ErrPrinting _) = True"
| "is_error_message _ = False"

fun is_error_output :: "'p event \<Rightarrow> bool" where
  "is_error_output (Output m) = is_error_message m"
| "is_error_output _ = False"

definition reported :: "'p event list \<Rightarrow> bool" where
  "reported t = list_ex is_error_output t"

definition image_size :: "'p image \<Rightarrow> int \<times> int" where
  "image_size img = (width img, height img)"

fun result_size :: "exn + 'p image \<Rightarrow> (int \<times> int) option" where
  "result_size (Inr img) = Some (image_size img)"
| "result_size (Inl e) = None"

section \<open>The raster encoder of the specification\<close>

text \<open>
  Modelled from the spec: the raster encoder \<open>encode(bitmap) -> byteSequence\<close> of section 4.2.
  The script has no encoder of its own: line 57 hands the image to the printer library
  (\<^verbatim>\<open>printer.image(img)\<close>), whose code is not part of the repository.  The definitions below
  follow the words of the specification.  What it leaves open is a parameter: the header
  bytes that select raster bit-image mode, and the thresholding, given as the predicate
  \<open>printed px x y\<close> (is the pixel in column \<open>x\<close> of row \<open>y\<close> printed?).
\<close>

type_synonym byte = "8 word"

record 'p encoder =
  header :: "byte list"
  printed :: "'p \<Rightarrow> nat \<Rightarrow> nat \<Rightarrow> bool"

datatype encoding_error = EncodingError

text \<open>Modelled from the spec: the packed-row-byte-width, \<open>ceil(width / 8)\<close>.\<close>

definition packed_row_width :: "int \<Rightarrow> nat" where
  "packed_row_width w = nat \<lceil>rat_of_int w / 8\<rceil>"

text \<open>Modelled from the spec: eight horizontal pixels in one byte, most significant bit
  first, a printed pixel as a set bit.\<close>

definition pack_bits :: "bool list \<Rightarrow> byte" where
  "pack_bits bs = foldl (\<lambda>acc b. 2 * acc + (if b then 1 else 0)) 0 bs"

text \<open>Modelled from the spec: byte \<open>i\<close> of row \<open>y\<close>; the columns beyond the width are
  padded with non-printed bits.\<close>

definition row_byte :: "'p encoder \<Rightarrow> 'p image \<Rightarrow> nat \<Rightarrow> nat \<Rightarrow> byte" where
  "row_byte enc img y i =
     pack_bits (map (\<lambda>k. int (8 * i + k) < width img \<and> printed enc (content img) (8 * i + k) y)
                    [0..<8])"

text \<open>Modelled from the spec: one packed row, \<open>ceil(width / 8)\<close> bytes.\<close>

definition packed_row :: "'p encoder \<Rightarrow> 'p image \<Rightarrow> nat \<Rightarrow> byte list" where
  "packed_row enc img y = map (row_byte enc img y) [0..<packed_row_width (width img)]"

text \<open>Modelled from the spec: a 16-bit field, low byte then high byte.\<close>

definition u16_le :: "nat \<Rightarrow> byte list" where
  "u16_le n = [of_nat (n mod 256), of_nat (n div 256)]"

text \<open>
  Modelled from the spec: \<open>encode\<close>, the command the encoder emits.  The header, the row
  width and the row count as two bytes each, then the packed rows, top row first.  It fails
  with \<open>EncodingError\<close> when the width or the height is zero (or less), or when the row width
  or the row count exceeds 65535.
\<close>

definition encode :: "'p encoder \<Rightarrow> 'p image \<Rightarrow> encoding_error + byte list" where
  "encode enc img =
     (if width img < 1 \<or> height img < 1
         \<or> 65535 < packed_row_width (width img) \<or> 65535 < height img
      then Inl EncodingError
      else Inr (header enc
                @ u16_le (packed_row_width (width img))
                @ u16_le (nat (height img))
                @ concat (map (packed_row enc img) [0..<nat (height img)])))"

section \<open>Sample worlds\<close>

text \<open>An imaging library whose calls all return, a printer that accepts every call, and the
  images of the scenarios.\<close>

definition sample_image :: "int \<Rightarrow> int \<Rightarrow> unit image" where
  "sample_image w h = \<lparr>width = w, height = h, mode = ''RGB'', content = ()\<rparr>"

definition sample_pil :: "unit pil" where
  "sample_pil =
     \<lparr>im_open = (\<lambda>path. Inr (sample_image 1152 800)),
      im_convert = (\<lambda>img m. Inr ()),
      im_resize = (\<lambda>img w h. Inr ())\<rparr>"

definition sample_world :: "unit world" where
  "sample_world =
     \<lparr>path_exists = (\<lambda>path. Inr True),
      imaging = sample_pil,
      network = (\<lambda>ip port profile. None),
      pr_image = (\<lambda>img. None),
      pr_ln = (\<lambda>n. None),
      pr_cut = None,
      pr_close = None\<rparr>"

definition sample_args :: args where
  "sample_args =
     \<lparr>arg_printer_ip = ''192.168.1.100'', arg_image_path = ''image.png'', arg_port = 9100,
      arg_profile = ''TM-T20II'', arg_width = 576\<rparr>"

definition sample_encoder :: "unit encoder" where
  "sample_encoder = \<lparr>header = [0x1D, 0x76, 0x30, 0x00], printed = (\<lambda>px x y. even (x + y))\<rparr>"

text \<open>Variations: a path that does not exist, a path whose directory may not be searched
  (\<^verbatim>\<open>exists\<close> raises \<^verbatim>\<open>PermissionError\<close>), a file that \<^verbatim>\<open>Image.open\<close> rejects, a file whose
  pixel data cannot be loaded when it is resized, a printer library that does not know the
  profile, a connection that breaks while the image is written, an interrupt while
  connecting; and a greyscale image already 576 wide.\<close>

definition missing_file_world :: "unit world" where
  "missing_file_world = sample_world\<lparr>path_exists := (\<lambda>path. Inr False)\<rparr>"

definition unreachable_path_world :: "unit world" where
  "unreachable_path_world =
     sample_world\<lparr>path_exists := (\<lambda>path. Inl (Error ''PermissionError''))\<rparr>"

definition unreadable_world :: "unit world" where
  "unreadable_world =
     sample_world\<lparr>imaging := sample_pil\<lparr>im_open := (\<lambda>path. Inl (Error ''UnidentifiedImageError''))\<rparr>\<rparr>"

definition truncated_file_world :: "unit world" where
  "truncated_file_world =
     sample_world\<lparr>imaging := sample_pil\<lparr>im_resize := (\<lambda>img w h. Inl (Error ''OSError''))\<rparr>\<rparr>"

text \<open>A file in mode RGB and 576 wide whose pixel data are cut short.  \<^verbatim>\<open>Image.open\<close> reads
  the header only, and at \<open>max_width = 576\<close> the script neither converts nor resizes: the
  first to load the pixels is \<^verbatim>\<open>printer.image\<close>, which raises \<^verbatim>\<open>OSError\<close>.\<close>

definition lazy_truncated_world :: "unit world" where
  "lazy_truncated_world =
     sample_world\<lparr>imaging := sample_pil\<lparr>im_open := (\<lambda>path. Inr (sample_image 576 800))\<rparr>,
                  pr_image := (\<lambda>img. Some (Error ''OSError''))\<rparr>"

definition unknown_profile_world :: "unit world" where
  "unknown_profile_world =
     sample_world\<lparr>network := (\<lambda>ip port profile.
        case profile of None \<Rightarrow> None | Some name \<Rightarrow> Some (Error ''KeyError''))\<rparr>"

definition broken_pipe_world :: "unit world" where
  "broken_pipe_world =
     sample_world\<lparr>pr_image := (\<lambda>img. Some (ConnectionError ''BrokenPipeError''))\<rparr>"




definition gray_image :: "unit image" where
  "gray_image = \<lparr>width = 576, height = 800, mode = ''L'', content = ()\<rparr>"

section \<open>Properties of the double-precision arithmetic\<close>

subsection \<open>Powers of two and the binary exponent\<close>

lemma pow2_power_int: "pow2 e = power_int 2 e"
  by (simp add: pow2_def power_int_def inverse_eq_divide power_one_over)

lemma pow2_pos: "0 < pow2 e"
  by (simp add: pow2_def)

lemma pow2_add: "pow2 (a + b) = pow2 a * pow2 b"
  by (simp add: pow2_power_int power_int_add)

lemma pow2_nat: "pow2 (int n) = 2 ^ n"
  by (simp add: pow2_def)

lemma pow2_neg_nat: "pow2 (- int n) = 1 / 2 ^ n"
  by (simp add: pow2_power_int power_int_minus inverse_eq_divide)

lemma pow2_mono: "a \<le> b \<Longrightarrow> pow2 a \<le> pow2 b"
  by (simp add: pow2_power_int power_int_increasing)

lemma pow2_less_cancel: "pow2 a < pow2 b \<Longrightarrow> a < b"
  using pow2_mono [of b a] by (cases "a < b") auto

lemma round_half_even_error: "\<bar>of_int (round_half_even y) - y\<bar> \<le> 1 / 2"
proof -
  have "of_int \<lfloor>y\<rfloor> \<le> y" and "y < of_int \<lfloor>y\<rfloor> + 1"
    by linarith+
  then show ?thesis
    by (auto simp: round_half_even_def Let_def)
qed

lemma round_half_even_of_int: "round_half_even (of_int k) = k"
  by (simp add: round_half_even_def)

lemma ilog2_bounds:
  assumes "0 < q"
  shows "pow2 (ilog2 q) \<le> q \<and> q < pow2 (ilog2 q + 1)"
proof (cases "1 \<le> q")
  case True
  define n where "n = nat \<lfloor>q\<rfloor>"
  define k where "k = floorlog 2 n"
  from True have fl: "1 \<le> \<lfloor>q\<rfloor>" by (simp add: le_floor_iff)
  then have n: "0 < n" and nq: "int n = \<lfloor>q\<rfloor>" by (simp_all add: n_def)
  have qn: "rat_of_int \<lfloor>q\<rfloor> = of_nat n" unfolding nq [symmetric] by simp
  from floorlog_bounds [of n 2] n have b: "2 ^ (k - 1) \<le> n" "n < 2 ^ k"
    by (simp_all add: k_def)
  from n have k: "0 < k" using floorlog_eq_zero_iff [of 2 n] by (auto simp: k_def)
  have e: "ilog2 q = int (k - 1)"
    using True k by (simp add: ilog2_def k_def n_def)
  have "(2::rat) ^ (k - 1) = of_nat (2 ^ (k - 1))" by simp
  also have "\<dots> \<le> of_nat n" using b(1) by (rule of_nat_mono)
  also have "\<dots> = of_int \<lfloor>q\<rfloor>" by (simp only: qn)
  also have "\<dots> \<le> q" by simp
  finally have lower: "pow2 (ilog2 q) \<le> q" by (simp add: e pow2_nat)
  have "q < of_int \<lfloor>q\<rfloor> + 1" by linarith
  also have "\<dots> = of_nat (n + 1)" by (simp add: qn)
  also have "\<dots> \<le> of_nat (2 ^ k)" using b(2) by (intro of_nat_mono) simp
  also have "\<dots> = (2::rat) ^ k" by simp
  finally have "q < 2 ^ k" .
  moreover have "ilog2 q + 1 = int k" using e k by simp
  ultimately have "q < pow2 (ilog2 q + 1)" by (simp add: pow2_nat)
  with lower show ?thesis by simp
next
  case False
  define t where "t = \<lceil>1 / q\<rceil>"
  define n where "n = nat (t - 1)"
  define k where "k = floorlog 2 n"
  from False assms have "1 < 1 / q" by simp
  then have t2: "2 \<le> t" unfolding t_def by (simp add: less_ceiling_iff [symmetric])
  then have n: "0 < n" and nt: "int n = t - 1" by (simp_all add: n_def)
  have tn: "rat_of_int t = of_nat n + 1"
  proof -
    have "rat_of_int t = of_int (int n + 1)" by (simp only: nt diff_add_cancel)
    then show ?thesis by simp
  qed
  from floorlog_bounds [of n 2] n have b: "2 ^ (k - 1) \<le> n" "n < 2 ^ k"
    by (simp_all add: k_def)
  from n have k: "0 < k" using floorlog_eq_zero_iff [of 2 n] by (auto simp: k_def)
  have e: "ilog2 q = - int k"
    using False by (simp add: ilog2_def k_def n_def t_def)
  have tq: "of_int t - 1 < 1 / q" "1 / q \<le> of_int t"
    unfolding t_def using ceiling_correct [of "1 / q"] by simp_all
  have "of_int t = (of_nat (n + 1) :: rat)"
    by (simp add: tn)
  also have "\<dots> \<le> of_nat (2 ^ k)" using b(2) by (intro of_nat_mono) simp
  also have "\<dots> = (2::rat) ^ k" by simp
  finally have "rat_of_int t \<le> 2 ^ k" .
  with tq(2) have "1 / q \<le> 2 ^ k" by (rule order_trans)
  with assms have lower: "1 / 2 ^ k \<le> q"
    by (simp add: field_simps)
  have "(2::rat) ^ (k - 1) = of_nat (2 ^ (k - 1))" by simp
  also have "\<dots> \<le> of_nat n" using b(1) by (rule of_nat_mono)
  also have "\<dots> = of_int t - 1" by (simp add: tn)
  also have "\<dots> < 1 / q" by (rule tq(1))
  finally have "(2::rat) ^ (k - 1) < 1 / q" .
  with assms have "q * 2 ^ (k - 1) < 1" by (simp add: field_simps)
  moreover have "(2::rat) ^ k = 2 * 2 ^ (k - 1)" using k by (cases k) simp_all
  ultimately have upper: "q < 2 / 2 ^ k" by (simp add: field_simps)
  have "pow2 (ilog2 q + 1) = pow2 1 * pow2 (- int k)"
    by (simp add: e pow2_add [symmetric])
  also have "\<dots> = 2 / 2 ^ k" by (simp add: pow2_neg_nat) (simp add: pow2_def)
  finally show ?thesis using lower upper by (simp add: e pow2_neg_nat)
qed

subsection \<open>The error of one rounding\<close>

text \<open>In the normal range a rounding changes its argument by at most the fraction
  \<open>2\<^sup>-\<^sup>5\<^sup>3\<close> of it, and an integer below \<open>2\<^sup>5\<^sup>3\<close> is not changed at all.\<close>

lemma round_double_normal:
  assumes lo: "pow2 (- 1022) \<le> q" and hi: "q < pow2 1023"
  shows "\<exists>r. round_double q = Finite r \<and> \<bar>r - q\<bar> \<le> q / 2 ^ 53"
proof -
  from lo pow2_pos [of "- 1022"] have q: "0 < q" by linarith
  define e where "e = ilog2 q"
  define p where "p = e - 52"
  define m where "m = round_half_even (q / pow2 p)"
  define r where "r = of_int m * pow2 p"
  from ilog2_bounds [OF q] have eb: "pow2 e \<le> q" "q < pow2 (e + 1)"
    by (simp_all add: e_def)
  from lo eb(2) have "pow2 (- 1022) < pow2 (e + 1)" by linarith
  then have "- 1022 < e + 1" by (rule pow2_less_cancel)
  then have pmax: "max (e - 52) (- 1074) = p" by (simp add: p_def)
  have pp: "0 < pow2 p" by (rule pow2_pos)
  have "\<bar>r - q\<bar> = \<bar>of_int m - q / pow2 p\<bar> * pow2 p"
  proof -
    have "r - q = (of_int m - q / pow2 p) * pow2 p"
      using pp by (simp add: r_def field_simps)
    then show ?thesis using pp by (simp add: abs_mult)
  qed
  also have "\<dots> \<le> (1 / 2) * pow2 p"
    using round_half_even_error [of "q / pow2 p"] pp
    by (intro mult_right_mono) (simp_all add: m_def)
  also have "\<dots> = pow2 e / 2 ^ 53"
  proof -
    have "pow2 e = pow2 p * pow2 52" by (simp add: p_def pow2_add [symmetric])
    then show ?thesis by (simp add: pow2_def)
  qed
  also have "\<dots> \<le> q / 2 ^ 53" using eb(1) by (simp add: divide_right_mono)
  finally have err: "\<bar>r - q\<bar> \<le> q / 2 ^ 53" .
  have "r \<le> q + q / 2 ^ 53" using err by linarith
  also have "\<dots> \<le> 2 * q" using q by simp
  also have "\<dots> < 2 * pow2 1023" using hi by simp
  also have "\<dots> = pow2 1024"
  proof -
    have "pow2 1024 = pow2 1 * pow2 1023" by (simp add: pow2_add [symmetric])
    then show ?thesis by (simp add: pow2_def)
  qed
  finally have "\<not> pow2 1024 \<le> r" by simp
  then have "round_double q = Finite r"
    using q pmax
    by (simp add: round_double_def Let_def e_def [symmetric] m_def [symmetric] r_def [symmetric])
  with err show ?thesis by blast
qed

lemma round_double_of_int:
  assumes n: "0 < n" and hi: "n < 2 ^ 53"
  shows "round_double (of_int n) = Finite (of_int n)"
proof -
  define q where "q = rat_of_int n"
  define e where "e = ilog2 q"
  define p where "p = e - 52"
  from n have q: "0 < q" and q1: "1 \<le> q" by (simp_all add: q_def)
  from ilog2_bounds [OF q] have eb: "pow2 e \<le> q" "q < pow2 (e + 1)"
    by (simp_all add: e_def)
  have "pow2 0 < pow2 (e + 1)" using q1 eb(2) by (simp add: pow2_def)
  then have e0: "0 \<le> e" using pow2_less_cancel [of 0 "e + 1"] by simp
  have "q < pow2 53"
  proof -
    have "rat_of_int n < of_int (2 ^ 53)" using hi by (simp only: of_int_less_iff)
    then show ?thesis by (simp add: q_def pow2_def)
  qed
  with eb(1) have "pow2 e < pow2 53" by linarith
  then have e52: "e \<le> 52" using pow2_less_cancel [of e 53] by simp
  from e0 have pmax: "max (e - 52) (- 1074) = p" by (simp add: p_def)
  define k where "k = n * 2 ^ nat (52 - e)"
  have inv: "pow2 p * pow2 (52 - e) = 1"
    by (simp add: pow2_add [symmetric] p_def) (simp add: pow2_def)
  have p2: "pow2 (52 - e) = 2 ^ nat (52 - e)" using e52 by (simp add: pow2_def)
  have "q / pow2 p = q * pow2 (52 - e)"
    using inv pow2_pos [of p] by (simp add: field_simps)
  also have "\<dots> = of_int k" by (simp add: q_def k_def p2)
  finally have m: "round_half_even (q / pow2 p) = k" by (simp add: round_half_even_of_int)
  have r: "of_int k * pow2 p = q"
  proof -
    have "of_int k * pow2 p = q * (pow2 (52 - e) * pow2 p)" by (simp add: q_def k_def p2)
    then show ?thesis using inv by (simp add: mult.commute)
  qed
  have "q < pow2 1024"
  proof -
    have "pow2 53 \<le> pow2 1024" by (rule pow2_mono) simp
    with \<open>q < pow2 53\<close> show ?thesis by linarith
  qed
  then have "\<not> pow2 1024 \<le> q" by simp
  then have "round_double q = Finite q"
    using q pmax by (simp add: round_double_def Let_def e_def [symmetric] m r)
  then show ?thesis by (simp add: q_def)
qed

subsection \<open>The computed height against the exact quotient\<close>

text \<open>Two roundings lie between the exact quotient \<open>h * mw / w\<close> and the height the script
  computes; truncated, the result is the integer quotient or one less.\<close>

lemma new_height_bounds:
  assumes w: "0 < w" and h: "0 < h" and mw: "0 < mw"
    and wb: "w < 2 ^ 51" and kb: "h * mw < 2 ^ 51"
  shows "\<exists>nh. new_height w h mw = Inr nh \<and> (h * mw) div w - 1 \<le> nh \<and> nh \<le> (h * mw) div w"
proof -
  define W where "W = rat_of_int w"
  define H where "H = rat_of_int h"
  define M where "M = rat_of_int mw"
  define y where "y = M / W"
  define x where "x = H * y"
  define u where "u = (1::rat) / 2 ^ 53"
  define d where "d = (h * mw) div w"
  have W: "1 \<le> W" and H: "1 \<le> H" and M: "1 \<le> M"
    using w h mw by (simp_all add: W_def H_def M_def)
  have Wb: "W < 2 ^ 51"
  proof -
    have "rat_of_int w < of_int (2 ^ 51)" using wb by (simp only: of_int_less_iff)
    then show ?thesis by (simp add: W_def)
  qed
  have HM: "H * M < 2 ^ 51"
  proof -
    have "rat_of_int (h * mw) < of_int (2 ^ 51)" using kb by (simp only: of_int_less_iff)
    then show ?thesis by (simp add: H_def M_def)
  qed
  have Hb: "H < 2 ^ 51"
  proof -
    have "H * 1 \<le> H * M" using H M by (intro mult_left_mono) simp_all
    with HM show ?thesis by simp
  qed
  have Mb: "M < 2 ^ 51"
  proof -
    have "1 * M \<le> H * M" using H M by (intro mult_right_mono) simp_all
    with HM show ?thesis by simp
  qed
  have hb: "h < 2 ^ 53"
  proof -
    have "rat_of_int h < of_int (2 ^ 53)" using Hb by (simp add: H_def)
    then show ?thesis by (simp only: of_int_less_iff)
  qed
  have u: "0 < u" "u \<le> 1" by (simp_all add: u_def)
  have c52: "2 * (2::rat) ^ 51 = 2 ^ 52" by simp
  have c51: "0 < (2::rat) ^ 51" by simp
  have c52': "1 / (2::rat) ^ 52 = (1 / 2 ^ 51) / 2" by simp
  have y0: "0 < y" using W M by (simp add: y_def)
  have ylo: "1 / 2 ^ 51 \<le> y"
  proof -
    have "1 / 2 ^ 51 \<le> 1 / W" using W Wb by (simp add: field_simps)
    also have "\<dots> \<le> M / W" using W M by (simp add: divide_right_mono)
    finally show ?thesis by (simp add: y_def)
  qed
  have yhi: "y \<le> M" using W M by (simp add: y_def field_simps)
  have x0: "0 < x" using H y0 by (simp add: x_def)
  have xW: "x * W = H * M" using W by (simp add: x_def y_def)
  have xhi: "x \<le> H * M"
  proof -
    have "x * 1 \<le> x * W" using x0 W by (intro mult_left_mono) simp_all
    then show ?thesis by (simp add: xW)
  qed
  have xlo: "1 / 2 ^ 51 \<le> x"
  proof -
    have "1 * y \<le> H * y" using y0 H by (intro mult_right_mono) simp_all
    then have "y \<le> x" by (simp add: x_def)
    with ylo show ?thesis by linarith
  qed
  \<comment> \<open>the quotient\<close>
  have "pow2 (- 1022) \<le> pow2 (- 51)" by (rule pow2_mono) simp
  also have "pow2 (- 51) = 1 / 2 ^ 51" by (simp add: pow2_def)
  finally have lo51: "pow2 (- 1022) \<le> 1 / 2 ^ 51" .
  have "pow2 (- 1022) \<le> pow2 (- 52)" by (rule pow2_mono) simp
  also have "pow2 (- 52) = 1 / 2 ^ 52" by (simp add: pow2_def)
  finally have lo52: "pow2 (- 1022) \<le> 1 / 2 ^ 52" .
  have "pow2 52 \<le> pow2 1023" by (rule pow2_mono) simp
  moreover have "pow2 52 = 2 ^ 52" by (simp add: pow2_def)
  ultimately have hi52: "2 ^ 52 \<le> pow2 1023" by simp
  have "pow2 (- 1022) \<le> y" using lo51 ylo by linarith
  moreover have "y < pow2 1023" using yhi Mb hi52 c52 c51 by linarith
  ultimately obtain r1 where r1: "round_double y = Finite r1" and e1: "\<bar>r1 - y\<bar> \<le> y / 2 ^ 53"
    using round_double_normal [of y] by blast
  have e1': "\<bar>r1 - y\<bar> \<le> y * u" using e1 by (simp add: u_def)
  have div: "py_truediv mw w = Inr r1"
    using w r1 by (simp add: py_truediv_def y_def M_def W_def)
  \<comment> \<open>the conversion of the height\<close>
  have conv: "py_float_of_int h = Inr H"
    using round_double_of_int [OF h hb] by (simp add: py_float_of_int_def H_def)
  \<comment> \<open>the product\<close>
  define z where "z = H * r1"
  have ez: "\<bar>z - x\<bar> \<le> x * u"
  proof -
    have "z - x = H * (r1 - y)" by (simp add: z_def x_def algebra_simps)
    then have "\<bar>z - x\<bar> = H * \<bar>r1 - y\<bar>" using H by (simp add: abs_mult)
    also have "\<dots> \<le> H * (y * u)" using e1' H by (intro mult_left_mono) simp_all
    finally show ?thesis by (simp add: x_def mult.assoc)
  qed
  have xu: "x * u \<le> x / 2" using x0 by (simp add: u_def)
  have zlo: "x / 2 \<le> z" using ez xu by linarith
  have zhi: "z \<le> x + x * u" using ez by linarith
  have zhi2: "z \<le> 2 * x" using ez xu x0 by linarith
  have "pow2 (- 1022) \<le> z"
  proof -
    note lo52
    also have "1 / (2::rat) ^ 52 = (1 / 2 ^ 51) / 2" by simp
    also have "\<dots> \<le> x / 2" using xlo by (rule divide_right_mono) simp
    also have "\<dots> \<le> z" by (rule zlo)
    finally show ?thesis .
  qed
  moreover have "z < pow2 1023" using zhi2 xhi HM hi52 c52 c51 by linarith
  ultimately obtain v where v: "round_double z = Finite v" and e2: "\<bar>v - z\<bar> \<le> z / 2 ^ 53"
    using round_double_normal [of z] by blast
  have e2': "\<bar>v - z\<bar> \<le> z * u" using e2 by (simp add: u_def)
  have mul: "py_mul_int_float h r1 = Inr (Finite v)"
    using conv v by (simp add: py_mul_int_float_def z_def)
  have z0: "0 < z" using zlo x0 by linarith
  have "z * u \<le> z / 2" using z0 by (simp add: u_def)
  with e2' z0 have v0: "0 \<le> v" by linarith
  have nh: "new_height w h mw = Inr \<lfloor>v\<rfloor>"
    using div mul v0 by (simp add: new_height_def py_int_def)
  \<comment> \<open>the error of the two roundings together\<close>
  have "z * u \<le> (2 * x) * u" using zhi2 u by (intro mult_right_mono) simp_all
  with e2' have "\<bar>v - z\<bar> \<le> 2 * x * u" by linarith
  with ez have "\<bar>v - x\<bar> \<le> 3 * x * u" by linarith
  also have "3 * x * u \<le> x / 2 ^ 51" using x0 by (simp add: u_def)
  finally have err: "\<bar>v - x\<bar> \<le> x / 2 ^ 51" .
  have "x / 2 ^ 51 < 1 / W"
  proof -
    have "x / 2 ^ 51 = (H * M / 2 ^ 51) / W" using W by (simp add: xW [symmetric])
    also have "\<dots> < 1 / W" using HM W by (intro divide_strict_right_mono) simp_all
    finally show ?thesis .
  qed
  with err have close: "\<bar>v - x\<bar> < 1 / W" by linarith
  have W1: "1 / W \<le> 1" using W by simp
  \<comment> \<open>against the exact quotient\<close>
  have xd: "x = rat_of_int (h * mw) / rat_of_int w"
    by (simp add: x_def y_def H_def M_def W_def)
  have dx: "rat_of_int d \<le> x"
  proof -
    have "\<lfloor>x\<rfloor> = d" unfolding xd d_def by (rule floor_divide_of_int_eq)
    then show ?thesis using of_int_floor_le [of x] by simp
  qed
  have "x + 1 / W \<le> rat_of_int d + 1"
  proof -
    have "h * mw = d * w + (h * mw) mod w" by (simp add: d_def)
    moreover have "(h * mw) mod w < w" using w by simp
    ultimately have "h * mw + 1 \<le> (d + 1) * w" by (simp add: algebra_simps)
    then have "rat_of_int (h * mw + 1) \<le> rat_of_int ((d + 1) * w)" by (simp only: of_int_le_iff)
    then have "H * M + 1 \<le> (rat_of_int d + 1) * W" by (simp add: H_def M_def W_def)
    then have "(H * M + 1) / W \<le> rat_of_int d + 1" using W by (simp add: field_simps)
    moreover have "x + 1 / W = (H * M + 1) / W" using W by (simp add: xW [symmetric] field_simps)
    ultimately show ?thesis by simp
  qed
  with close have "v < rat_of_int d + 1" by linarith
  then have "v < rat_of_int (d + 1)" by simp
  then have "\<lfloor>v\<rfloor> < d + 1" by (simp only: floor_less_iff)
  then have up: "\<lfloor>v\<rfloor> \<le> d" by simp
  have "rat_of_int d - 1 \<le> v" using close W1 dx by linarith
  then have "rat_of_int (d - 1) \<le> v" by simp
  then have low: "d - 1 \<le> \<lfloor>v\<rfloor>" by (simp only: le_floor_iff)
  from nh up low show ?thesis by (simp add: d_def)
qed

subsection \<open>Evaluating the arithmetic on numerals\<close>

lemma floor_rat_numeral_div: "\<lfloor>(numeral a :: rat) / numeral b\<rfloor> = numeral a div numeral b"
  using floor_divide_of_int_eq [of "numeral a" "numeral b", where ?'a = rat] by simp

lemma ceiling_rat_numeral_div: "\<lceil>(numeral a :: rat) / numeral b\<rceil> = - (- numeral a div numeral b)"
  using ceiling_divide_eq_div [of "numeral a" "numeral b", where ?'a = rat] by simp

lemmas float_eval =
  new_height_def py_truediv_def py_mul_int_float_def py_float_of_int_def py_int_def
  round_double_def ilog2_def pow2_def round_half_even_def Let_def
  compute_floorlog floor_rat_numeral_div ceiling_rat_numeral_div

text \<open>Both values occur.  At 2304 by 803 and width 576 the exact quotient is 200.75 and the
  script computes 200.  At 49 by 98 and width 1 the exact quotient is 2, but \<open>1 / 49\<close> is
  rounded down, \<open>98 * (1 / 49)\<close> is just below 2, and the script computes 1.\<close>

lemma new_height_floor_example: "new_height 2304 803 576 = Inr ((803 * 576) div 2304)"
  by (simp add: float_eval)

lemma new_height_one_less_example: "new_height 49 98 1 = Inr ((98 * 1) div 49 - 1)"
  by (simp add: float_eval)

section \<open>The normalizer\<close>

subsection \<open>What the library calls keep, and the value of the normalizer\<close>

lemma to_rgb_result:
  assumes "to_rgb lib img = Inr img1"
  shows "width img1 = width img \<and> height img1 = height img \<and> mode img1 = ''RGB''"
  using assms by (auto simp: to_rgb_def pil_convert_def split: if_splits sum.splits)

lemma pil_resize_result:
  assumes "pil_resize lib img w h = Inr img'"
  shows "width img' = w \<and> height img' = h \<and> mode img' = mode img"
  using assms by (auto simp: pil_resize_def split: sum.splits)

lemma snd_scale:
  "snd (scale lib img mw) =
     (if width img \<noteq> mw then
        (case new_height (width img) (height img) mw of
           Inl e \<Rightarrow> Inl e
         | Inr nh \<Rightarrow> pil_resize lib img mw nh)
      else Inr img)"
  by (simp add: scale_def bind_def say_def lift_def split: sum.splits prod.splits)

lemma snd_normalize:
  "snd (normalize_image lib img mw) =
     (case to_rgb lib img of Inl e \<Rightarrow> Inl e | Inr img1 \<Rightarrow> snd (scale lib img1 mw))"
  by (simp add: normalize_image_def bind_def say_def lift_def split: sum.splits prod.splits)

lemma normalize_cases:
  assumes "snd (normalize_image lib img mw) = Inr img'"
  obtains (same) "width img = mw" "to_rgb lib img = Inr img'"
  | (scaled) img1 nh where "width img \<noteq> mw" "to_rgb lib img = Inr img1"
      "new_height (width img) (height img) mw = Inr nh" "pil_resize lib img1 mw nh = Inr img'"
proof -
  from assms obtain img1 where rgb: "to_rgb lib img = Inr img1"
    and sc: "snd (scale lib img1 mw) = Inr img'"
    by (auto simp: snd_normalize split: sum.splits)
  note sz = to_rgb_result [OF rgb]
  show thesis
  proof (cases "width img = mw")
    case True
    with sc sz rgb show thesis by (intro same) (simp_all add: snd_scale)
  next
    case False
    with sc sz obtain nh where "new_height (width img) (height img) mw = Inr nh"
      "pil_resize lib img1 mw nh = Inr img'"
      by (auto simp: snd_scale split: sum.splits)
    with False rgb show thesis by (intro scaled)
  qed
qed

subsection \<open>Scenario 1: a 1152 by 800 image at width 576\<close>

text \<open>
  Claim C2 says that a 1152 by 800 image is normalized to 576 by 556 at \<open>max_width = 576\<close>.
  It is not: with the sample library the normalizer does not return an image of that size.
\<close>

theorem normalize_1152x800_counterexample:
  "result_size (snd (normalize_image sample_pil (sample_image 1152 800) 576)) \<noteq> Some (576, 556)"
  by (simp add: snd_normalize snd_scale to_rgb_def pil_resize_def sample_pil_def sample_image_def
      image_size_def float_eval)

text \<open>
  Claim C2, amended: whenever the normalizer returns an image for a 1152 by 800 input at
  \<open>max_width = 576\<close>, that image is 576 by 400.  The ratio is \<open>576 / 1152 = 0.5\<close> and
  \<open>int(800 * 0.5) = 400\<close>, both exact in double precision.
\<close>

theorem normalize_1152x800:
  assumes "width img = 1152" and "height img = 800"
    and "snd (normalize_image lib img 576) = Inr img'"
  shows "image_size img' = (576, 400)"
  using assms(3)
proof (cases rule: normalize_cases)
  case same
  with assms show ?thesis by simp
next
  case (scaled img1 nh)
  have "new_height 1152 800 576 = Inr 400" by (simp add: float_eval)
  with scaled assms have "nh = 400" by simp
  with pil_resize_result [OF scaled(4)] show ?thesis by (simp add: image_size_def)
qed

text \<open>Claim C2, witness: the sample library on the 1152 by 800 sample image.\<close>

theorem normalize_1152x800_witness:
  "width (sample_image 1152 800) = 1152 \<and> height (sample_image 1152 800) = 800
   \<and> snd (normalize_image sample_pil (sample_image 1152 800) 576) = Inr (sample_image 576 400)
   \<and> image_size (sample_image 576 400) = (576, 400)"
proof -
  have w: "width (sample_image 1152 800) = 1152" and h: "height (sample_image 1152 800) = 800"
    by (simp_all add: sample_image_def)
  have n: "snd (normalize_image sample_pil (sample_image 1152 800) 576) = Inr (sample_image 576 400)"
    by (simp add: snd_normalize snd_scale to_rgb_def pil_resize_def sample_pil_def
        sample_image_def float_eval)
  from normalize_1152x800 [OF w h n] w h n show ?thesis by simp
qed

subsection \<open>Scaling to another width\<close>

lemmas sample_normalize_eval =
  snd_normalize snd_scale to_rgb_def pil_resize_def sample_pil_def sample_image_def
  image_size_def float_eval

text \<open>
  Claim C1 says that the scaled height is \<open>round(oldHeight * maxWidth / oldWidth)\<close>.  It is
  not: a 2304 by 803 image at \<open>max_width = 576\<close> has the exact quotient 200.75, which
  rounds to 201, and the normalizer does not return a 576 by 201 image.
\<close>

theorem normalize_height_round_counterexample:
  "result_size (snd (normalize_image sample_pil (sample_image 2304 803) 576))
     \<noteq> Some (576, round (rat_of_int (803 * 576) / rat_of_int 2304))"
  by (simp add: sample_normalize_eval round_def)

text \<open>
  Claim C1, amended: for a bitmap of positive width and height and a positive \<open>max_width\<close>
  other than its width, an image the normalizer returns has width \<open>max_width\<close> and the
  height \<open>int(height * (max_width / width))\<close>: the quotient and the product are computed in
  double precision and the result is truncated, not rounded.  For a width and a product
  \<open>height * max_width\<close> below \<open>2\<^sup>5\<^sup>1\<close> that height is the integer quotient
  \<open>height * max_width div width\<close> or one less.
\<close>

theorem normalize_scaled_size:
  assumes "0 < width img" and "0 < height img" and "0 < max_width"
    and "width img \<noteq> max_width"
    and "snd (normalize_image lib img max_width) = Inr img'"
  shows "width img' = max_width
    \<and> new_height (width img) (height img) max_width = Inr (height img')
    \<and> (width img < 2 ^ 51 \<and> height img * max_width < 2 ^ 51 \<longrightarrow>
         (height img * max_width) div width img - 1 \<le> height img'
         \<and> height img' \<le> (height img * max_width) div width img)"
  using assms(5)
proof (cases rule: normalize_cases)
  case same
  with assms(4) show ?thesis by simp
next
  case (scaled img1 nh)
  from pil_resize_result [OF scaled(4)] have sz: "width img' = max_width" "height img' = nh"
    by simp_all
  have "(height img * max_width) div width img - 1 \<le> nh
      \<and> nh \<le> (height img * max_width) div width img"
    if "width img < 2 ^ 51" "height img * max_width < 2 ^ 51"
    using new_height_bounds [OF assms(1-3) that] scaled(3) by auto
  with sz scaled(3) show ?thesis by simp
qed

text \<open>
  Claim C1, witness: the sample library on the 2304 by 803 sample image, scaled to 576 by 200.
\<close>

theorem normalize_scaled_size_witness:
  "0 < width (sample_image 2304 803) \<and> 0 < height (sample_image 2304 803) \<and> (0::int) < 576
   \<and> width (sample_image 2304 803) \<noteq> 576
   \<and> snd (normalize_image sample_pil (sample_image 2304 803) 576) = Inr (sample_image 576 200)
   \<and> width (sample_image 2304 803) < 2 ^ 51 \<and> height (sample_image 2304 803) * 576 < 2 ^ 51
   \<and> width (sample_image 576 200) = 576
   \<and> new_height 2304 803 576 = Inr (height (sample_image 576 200))
   \<and> (803 * 576) div 2304 - 1 \<le> height (sample_image 576 200)
   \<and> height (sample_image 576 200) \<le> (803 * 576) div 2304"
proof -
  have a: "0 < width (sample_image 2304 803)" "0 < height (sample_image 2304 803)"
    "(0::int) < 576" "width (sample_image 2304 803) \<noteq> 576"
    by (simp_all add: sample_image_def)
  have n: "snd (normalize_image sample_pil (sample_image 2304 803) 576) = Inr (sample_image 576 200)"
    by (simp add: sample_normalize_eval)
  have b: "width (sample_image 2304 803) < 2 ^ 51" "height (sample_image 2304 803) * 576 < 2 ^ 51"
    by (simp_all add: sample_image_def)
  from normalize_scaled_size [OF a n] a n b show ?thesis
    by (simp add: sample_image_def)
qed

subsection \<open>Idempotence\<close>

text \<open>
  Claim C8: normalizing the result of the normalizer again, with the same \<open>max_width\<close>,
  returns that result unchanged (and a failure of the first pass stays that failure); and
  when the width already equals \<open>max_width\<close>, the result has the width and the height of the
  input.  The result of a pass is in mode RGB and \<open>max_width\<close> wide, so the second pass
  neither converts nor scales.
\<close>

theorem normalize_idempotent:
  "(case snd (normalize_image lib img max_width) of
      Inl e \<Rightarrow> Inl e
    | Inr img' \<Rightarrow> snd (normalize_image lib img' max_width)) = snd (normalize_image lib img max_width)
   \<and> (\<forall>img'. width img = max_width \<and> snd (normalize_image lib img max_width) = Inr img' \<longrightarrow>
         width img' = width img \<and> height img' = height img)"
proof (rule conjI)
  show "(case snd (normalize_image lib img max_width) of
      Inl e \<Rightarrow> Inl e
    | Inr img' \<Rightarrow> snd (normalize_image lib img' max_width)) = snd (normalize_image lib img max_width)"
  proof (cases "snd (normalize_image lib img max_width)")
    case (Inl e)
    then show ?thesis by simp
  next
    case (Inr img')
    then have "mode img' = ''RGB'' \<and> width img' = max_width"
    proof (cases rule: normalize_cases)
      case same
      with to_rgb_result [OF same(2)] show ?thesis by simp
    next
      case (scaled img1 nh)
      with to_rgb_result [OF scaled(2)] pil_resize_result [OF scaled(4)] show ?thesis by simp
    qed
    then have "snd (normalize_image lib img' max_width) = Inr img'"
      by (simp add: snd_normalize snd_scale to_rgb_def)
    with Inr show ?thesis by simp
  qed
next
  show "\<forall>img'. width img = max_width \<and> snd (normalize_image lib img max_width) = Inr img' \<longrightarrow>
         width img' = width img \<and> height img' = height img"
  proof (intro allI impI)
    fix img'
    assume a: "width img = max_width \<and> snd (normalize_image lib img max_width) = Inr img'"
    then have "snd (normalize_image lib img max_width) = Inr img'" by simp
    then show "width img' = width img \<and> height img' = height img"
    proof (cases rule: normalize_cases)
      case same
      with to_rgb_result [OF same(2)] show ?thesis by simp
    next
      case (scaled img1 nh)
      with a show ?thesis by simp
    qed
  qed
qed

text \<open>
  Claim C8, witness: a greyscale image that is already 576 wide is converted and keeps its
  size, and a second pass returns the converted image.
\<close>

theorem normalize_idempotent_witness:
  "width gray_image = 576
   \<and> snd (normalize_image sample_pil gray_image 576) = Inr (sample_image 576 800)
   \<and> width (sample_image 576 800) = width gray_image
   \<and> height (sample_image 576 800) = height gray_image
   \<and> snd (normalize_image sample_pil (sample_image 576 800) 576) = Inr (sample_image 576 800)"
proof -
  have a: "width gray_image = 576" by (simp add: gray_image_def)
  have b: "snd (normalize_image sample_pil gray_image 576) = Inr (sample_image 576 800)"
    by (simp add: sample_normalize_eval gray_image_def pil_convert_def)
  note idem = normalize_idempotent [where lib = sample_pil and img = gray_image
      and max_width = 576]
  from idem a b have c: "width (sample_image 576 800) = width gray_image
     \<and> height (sample_image 576 800) = height gray_image" by blast
  from idem b have d: "snd (normalize_image sample_pil (sample_image 576 800) 576)
     = Inr (sample_image 576 800)" by simp
  from a b c d show ?thesis by simp
qed

section \<open>The print session\<close>

subsection \<open>Sequencing and traces\<close>

lemma bind_Inl: "bind (t, Inl e) f = (t, Inl e)"
  by (simp add: bind_def)

lemma bind_Inr: "bind (t, Inr x) f = (t @ fst (f x), snd (f x))"
  by (simp add: bind_def split: prod.splits)

lemma bind_eq_Inr:
  "bind m f = (t, Inr y) \<longleftrightarrow> (\<exists>t1 x t2. m = (t1, Inr x) \<and> f x = (t2, Inr y) \<and> t = t1 @ t2)"
  by (cases m; cases "snd m") (auto simp: bind_def split: prod.splits)

lemmas run_simps = bind_Inl bind_Inr say_def lift_def call_def


lemma printer_calls_append: "printer_calls (xs @ ys) = printer_calls xs @ printer_calls ys"
  by (induction xs rule: printer_calls.induct) simp_all



lemma normalize_trace:
  "printer_calls (fst (normalize_image lib img mw)) = []
   \<and> \<not> reported (fst (normalize_image lib img mw))
   \<and> \<not> list_ex is_network_call (fst (normalize_image lib img mw))"
  by (auto simp: normalize_image_def scale_def bind_def say_def lift_def reported_def
      split: sum.splits prod.splits)

lemma connect_trace:
  "printer_calls (fst (connect w ip port prof)) = [] \<and> \<not> reported (fst (connect w ip port prof))"
  by (auto simp: connect_def bind_def say_def lift_def call_def reported_def
      split: sum.splits prod.splits option.splits)

lemma send_trace:
  assumes "send w img = (t, Inr u)"
  shows "printer_calls t = [PrImage img, PrLn 1, PrCut, PrClose] \<and> \<not> reported t
    \<and> pr_image w img = None \<and> pr_ln w 1 = None \<and> pr_cut w = None \<and> pr_close w = None"
  using assms
  by (auto simp: send_def bind_def say_def lift_def call_def reported_def
      split: sum.splits prod.splits option.splits)


subsection \<open>The value of the connection and of the sending\<close>





lemma connect_fallback:
  assumes "network w ip port (Some prof) = Some e" and "is_Exception e"
  shows "connect w ip port prof =
     ([Called (Network ip port (Some prof)) (Some e), Output (WarnProfile prof),
       Called (Network ip port None) (network w ip port None)],
      (case network w ip port None of None \<Rightarrow> Inr () | Some e' \<Rightarrow> Inl e'))"
  using assms by (simp add: connect_def run_simps)

lemma send_first_call: "Called (PrImage img) (pr_image w img) \<in> set (fst (send w img))"
  by (cases "pr_image w img") (simp_all add: send_def run_simps)

lemma send_ok:
  assumes "pr_image w img = None" and "pr_ln w 1 = None" and "pr_cut w = None"
    and "pr_close w = None"
  shows "send w img =
     ([Output Printing, Called (PrImage img) None, Called (PrLn 1) None, Called PrCut None,
       Called PrClose None], Inr ())"
  using assms by (simp add: send_def run_simps)

subsection \<open>The paths through the body of the outer try\<close>

lemma try_body_missing:
  "path_exists w p = Inr False \<Longrightarrow>
   try_body w p ip port prof mw = ([Output (ErrNotFound p)], Inr False)"
  by (simp add: try_body_def run_simps)

lemma try_body_unreachable:
  "path_exists w p = Inl e \<Longrightarrow> try_body w p ip port prof mw = ([], Inl e)"
  by (simp add: try_body_def run_simps)

lemma try_body_unreadable:
  "path_exists w p = Inr True \<Longrightarrow> im_open (imaging w) p = Inl e \<Longrightarrow>
   try_body w p ip port prof mw = ([Output (Opening p)], Inl e)"
  by (simp add: try_body_def run_simps)

lemma try_body_not_normalized:
  "path_exists w p = Inr True \<Longrightarrow> im_open (imaging w) p = Inr img0 \<Longrightarrow>
   normalize_image (imaging w) img0 mw = (tn, Inl e) \<Longrightarrow>
   try_body w p ip port prof mw = (Output (Opening p) # tn, Inl e)"
  by (simp add: try_body_def run_simps)

lemma try_body_loaded:
  assumes "path_exists w p = Inr True" and "im_open (imaging w) p = Inr img0"
    and "normalize_image (imaging w) img0 mw = (tn, Inr img)"
  shows "try_body w p ip port prof mw =
     (case connect w ip port prof of
        (tc, Inl e) \<Rightarrow> (Output (Opening p) # tn @ Output (Connecting ip port prof) # tc, Inl e)
      | (tc, Inr u) \<Rightarrow>
          (case send w img of
             (ts, Inl e) \<Rightarrow>
               (Output (Opening p) # tn @ Output (Connecting ip port prof) # tc @ ts, Inl e)
           | (ts, Inr u') \<Rightarrow>
               (Output (Opening p) # tn @ Output (Connecting ip port prof) # tc @ ts
                  @ [Output Success], Inr True)))"
  using assms
  by (cases "connect w ip port prof"; cases "snd (connect w ip port prof)";
      cases "send w img"; cases "snd (send w img)")
     (simp_all add: try_body_def run_simps)

lemma try_body_True:
  assumes "try_body w p ip port prof mw = (t, Inr True)"
  shows "path_exists w p = Inr True \<and> (\<exists>img0 img tn tc ts.
      im_open (imaging w) p = Inr img0
      \<and> normalize_image (imaging w) img0 mw = (tn, Inr img)
      \<and> connect w ip port prof = (tc, Inr ())
      \<and> send w img = (ts, Inr ())
      \<and> t = [Output (Opening p)] @ tn @ [Output (Connecting ip port prof)] @ tc @ ts
            @ [Output Success])"
  using assms
  by (auto simp: try_body_def bind_eq_Inr say_def lift_def split: if_splits)

lemma try_body_False:
  assumes "try_body w p ip port prof mw = (t, Inr False)"
  shows "path_exists w p = Inr False \<and> t = [Output (ErrNotFound p)]"
  using assms
  by (auto simp: try_body_def bind_eq_Inr say_def lift_def split: if_splits)




subsection \<open>The handlers and the exit status\<close>




lemma main_eq:
  "main w a =
     (Output (Banner (arg_printer_ip a) (arg_port a) (arg_profile a) (arg_image_path a))
        # fst (print_image_to_network_printer w (arg_image_path a) (arg_printer_ip a)
                 (arg_port a) (arg_profile a) (arg_width a)),
      (case snd (print_image_to_network_printer w (arg_image_path a) (arg_printer_ip a)
                 (arg_port a) (arg_profile a) (arg_width a)) of
         Inl e \<Rightarrow> Inl e
       | Inr success \<Rightarrow> Inr (if success then 0 else 1)))"
  by (cases "print_image_to_network_printer w (arg_image_path a) (arg_printer_ip a)
                 (arg_port a) (arg_profile a) (arg_width a)")
     (auto simp: main_def bind_def say_def lift_def split: sum.splits)

subsection \<open>Evaluating the sample worlds\<close>

lemmas sample_world_eval = sample_world_def sample_args_def

lemmas sample_run_eval =
  main_def print_image_to_network_printer_def try_body_def normalize_image_def scale_def connect_def
  send_def bind_def say_def lift_def call_def to_rgb_def pil_resize_def pil_convert_def
  sample_pil_def sample_image_def sample_world_eval float_eval reported_def

subsection \<open>A missing or unreadable image\<close>

text \<open>
  Claim C6 says that an invocation with an unreadable image path never attempts to open a
  network connection.  It does when the file is unreadable in its pixel data only: for a file
  in mode RGB and already \<open>max_width\<close> wide, \<^verbatim>\<open>Image.open\<close> returns, nothing is converted or
  resized, the \<^verbatim>\<open>Network\<close> constructor is called, and only then \<^verbatim>\<open>printer.image\<close> fails to
  load the pixels.  The program exits with status 1 after a \<^verbatim>\<open>Network\<close> call.
\<close>

theorem unreadable_pixels_counterexample:
  "im_open (imaging lazy_truncated_world) (arg_image_path sample_args)
     = Inr (sample_image 576 800)
   \<and> pr_image lazy_truncated_world (sample_image 576 800) = Some (Error ''OSError'')
   \<and> snd (main lazy_truncated_world sample_args) = Inr 1
   \<and> list_ex is_network_call (fst (main lazy_truncated_world sample_args))"
  by (simp add: sample_run_eval lazy_truncated_world_def)

text \<open>
  Claim C6, amended: when the image path does not exist, or when the existence check (line
  27), \<^verbatim>\<open>Image.open\<close> (line 33) or the conversion or scaling of the opened image (lines 36 to
  45) raises an error, the program prints an error line, exits with status 1 and makes no
  call of the \<^verbatim>\<open>Network\<close> constructor.
\<close>

theorem missing_or_unreadable_no_connection:
  assumes "path_exists w (arg_image_path a) = Inr False
     \<or> (\<exists>e. path_exists w (arg_image_path a) = Inl e \<and> is_Exception e)
     \<or> (\<exists>e. path_exists w (arg_image_path a) = Inr True
          \<and> im_open (imaging w) (arg_image_path a) = Inl e \<and> is_Exception e)
     \<or> (\<exists>img0 e. path_exists w (arg_image_path a) = Inr True
          \<and> im_open (imaging w) (arg_image_path a) = Inr img0
          \<and> snd (normalize_image (imaging w) img0 (arg_width a)) = Inl e \<and> is_Exception e)"
  shows "snd (main w a) = Inr 1 \<and> reported (fst (main w a))
     \<and> \<not> list_ex is_network_call (fst (main w a))"
  using assms
proof (elim disjE exE conjE)
  assume "path_exists w (arg_image_path a) = Inr False"
  then show ?thesis
    by (simp add: main_eq print_image_to_network_printer_def try_body_missing reported_def)
next
  fix e
  assume "path_exists w (arg_image_path a) = Inl e" "is_Exception e"
  then show ?thesis
    by (simp add: main_eq print_image_to_network_printer_def try_body_unreachable reported_def)
next
  fix e
  assume "path_exists w (arg_image_path a) = Inr True"
    "im_open (imaging w) (arg_image_path a) = Inl e" "is_Exception e"
  then show ?thesis
    by (simp add: main_eq print_image_to_network_printer_def try_body_unreadable reported_def)
next
  fix img0 e
  assume ex: "path_exists w (arg_image_path a) = Inr True"
    and op: "im_open (imaging w) (arg_image_path a) = Inr img0"
    and nz: "snd (normalize_image (imaging w) img0 (arg_width a)) = Inl e"
    and err: "is_Exception e"
  obtain tn where n: "normalize_image (imaging w) img0 (arg_width a) = (tn, Inl e)"
    using nz by (cases "normalize_image (imaging w) img0 (arg_width a)") simp
  from normalize_trace [of "imaging w" img0 "arg_width a"] n
  have "\<not> list_ex is_network_call tn" by simp
  with err show ?thesis
    by (simp add: main_eq print_image_to_network_printer_def
        try_body_not_normalized [OF ex op n] reported_def)
qed

text \<open>
  Claim C6, witness: a missing path, a path on which \<^verbatim>\<open>exists\<close> raises, a file that
  \<^verbatim>\<open>Image.open\<close> rejects, and a file whose resize fails.
\<close>

theorem missing_or_unreadable_no_connection_witness:
  "path_exists missing_file_world (arg_image_path sample_args) = Inr False
   \<and> snd (main missing_file_world sample_args) = Inr 1
   \<and> reported (fst (main missing_file_world sample_args))
   \<and> \<not> list_ex is_network_call (fst (main missing_file_world sample_args))
   \<and> path_exists unreachable_path_world (arg_image_path sample_args)
        = Inl (Error ''PermissionError'')
   \<and> is_Exception (Error ''PermissionError'')
   \<and> snd (main unreachable_path_world sample_args) = Inr 1
   \<and> reported (fst (main unreachable_path_world sample_args))
   \<and> \<not> list_ex is_network_call (fst (main unreachable_path_world sample_args))
   \<and> path_exists unreadable_world (arg_image_path sample_args) = Inr True
   \<and> im_open (imaging unreadable_world) (arg_image_path sample_args)
        = Inl (Error ''UnidentifiedImageError'')
   \<and> is_Exception (Error ''UnidentifiedImageError'')
   \<and> snd (main unreadable_world sample_args) = Inr 1
   \<and> reported (fst (main unreadable_world sample_args))
   \<and> \<not> list_ex is_network_call (fst (main unreadable_world sample_args))
   \<and> path_exists truncated_file_world (arg_image_path sample_args) = Inr True
   \<and> im_open (imaging truncated_file_world) (arg_image_path sample_args)
        = Inr (sample_image 1152 800)
   \<and> snd (normalize_image (imaging truncated_file_world) (sample_image 1152 800)
        (arg_width sample_args)) = Inl (Error ''OSError'')
   \<and> is_Exception (Error ''OSError'')
   \<and> snd (main truncated_file_world sample_args) = Inr 1
   \<and> reported (fst (main truncated_file_world sample_args))
   \<and> \<not> list_ex is_network_call (fst (main truncated_file_world sample_args))"
proof -
  have a: "path_exists missing_file_world (arg_image_path sample_args) = Inr False"
    by (simp add: sample_world_eval missing_file_world_def)
  have b: "path_exists unreachable_path_world (arg_image_path sample_args)
        = Inl (Error ''PermissionError'')"
    by (simp add: sample_world_eval unreachable_path_world_def)
  have c: "path_exists unreadable_world (arg_image_path sample_args) = Inr True"
    "im_open (imaging unreadable_world) (arg_image_path sample_args)
        = Inl (Error ''UnidentifiedImageError'')"
    by (simp_all add: sample_world_eval unreadable_world_def sample_pil_def)
  have d: "path_exists truncated_file_world (arg_image_path sample_args) = Inr True"
    "im_open (imaging truncated_file_world) (arg_image_path sample_args)
        = Inr (sample_image 1152 800)"
    by (simp_all add: sample_world_eval truncated_file_world_def sample_pil_def)
  have e: "snd (normalize_image (imaging truncated_file_world) (sample_image 1152 800)
        (arg_width sample_args)) = Inl (Error ''OSError'')"
    by (simp add: sample_world_eval truncated_file_world_def sample_normalize_eval)
  have x: "is_Exception (Error ''PermissionError'')"
    "is_Exception (Error ''UnidentifiedImageError'')" "is_Exception (Error ''OSError'')"
    by simp_all
  have 1: "snd (main missing_file_world sample_args) = Inr 1
     \<and> reported (fst (main missing_file_world sample_args))
     \<and> \<not> list_ex is_network_call (fst (main missing_file_world sample_args))"
    by (rule missing_or_unreadable_no_connection) (use a in blast)
  have 2: "snd (main unreachable_path_world sample_args) = Inr 1
     \<and> reported (fst (main unreachable_path_world sample_args))
     \<and> \<not> list_ex is_network_call (fst (main unreachable_path_world sample_args))"
    by (rule missing_or_unreadable_no_connection) (use b x in blast)
  have 3: "snd (main unreadable_world sample_args) = Inr 1
     \<and> reported (fst (main unreadable_world sample_args))
     \<and> \<not> list_ex is_network_call (fst (main unreadable_world sample_args))"
    by (rule missing_or_unreadable_no_connection) (use c x in blast)
  have 4: "snd (main truncated_file_world sample_args) = Inr 1
     \<and> reported (fst (main truncated_file_world sample_args))
     \<and> \<not> list_ex is_network_call (fst (main truncated_file_world sample_args))"
    by (rule missing_or_unreadable_no_connection) (use d e x in blast)
  from 1 2 3 4 a b c d e x show ?thesis by simp
qed

subsection \<open>A bitmap with a zero or negative dimension\<close>



subsection \<open>An unrecognized profile\<close>

text \<open>
  Claim C7: when the constructor with the profile raises an error, the run prints the
  warning and calls the constructor again without a profile; if that call returns, the image
  is sent; and if the four calls on the printer return as well, the program exits with
  status 0 and has printed no error line.
\<close>

theorem unknown_profile_falls_back:
  assumes ex: "path_exists w (arg_image_path a) = Inr True"
    and op: "im_open (imaging w) (arg_image_path a) = Inr img0"
    and nz: "snd (normalize_image (imaging w) img0 (arg_width a)) = Inr img"
    and unk: "network w (arg_printer_ip a) (arg_port a) (Some (arg_profile a)) = Some e"
    and err: "is_Exception e"
  shows "Output (WarnProfile (arg_profile a)) \<in> set (fst (main w a))
     \<and> Called (Network (arg_printer_ip a) (arg_port a) None)
          (network w (arg_printer_ip a) (arg_port a) None) \<in> set (fst (main w a))
     \<and> (network w (arg_printer_ip a) (arg_port a) None = None \<longrightarrow>
          Called (PrImage img) (pr_image w img) \<in> set (fst (main w a)))
     \<and> (network w (arg_printer_ip a) (arg_port a) None = None \<and> pr_image w img = None
          \<and> pr_ln w 1 = None \<and> pr_cut w = None \<and> pr_close w = None \<longrightarrow>
          snd (main w a) = Inr 0 \<and> \<not> reported (fst (main w a)))"
proof -
  obtain tn where n: "normalize_image (imaging w) img0 (arg_width a) = (tn, Inr img)"
    using nz by (cases "normalize_image (imaging w) img0 (arg_width a)") simp
  note body = try_body_loaded [OF ex op n, of "arg_printer_ip a" "arg_port a" "arg_profile a"]
  note con = connect_fallback [OF unk err]
  from normalize_trace [of "imaging w" img0 "arg_width a"] n have tn: "\<not> reported tn" by simp
  show ?thesis
  proof (cases "network w (arg_printer_ip a) (arg_port a) None")
    case (Some e')
    then show ?thesis
      by (simp add: main_eq print_image_to_network_printer_def body con)
  next
    case None
    have first: "Called (PrImage img) (pr_image w img) \<in> set (fst (send w img))"
      by (rule send_first_call)
    have "Output (WarnProfile (arg_profile a)) \<in> set (fst (main w a))
      \<and> Called (Network (arg_printer_ip a) (arg_port a) None) None \<in> set (fst (main w a))
      \<and> Called (PrImage img) (pr_image w img) \<in> set (fst (main w a))"
      using None first
      by (cases "send w img"; cases "snd (send w img)")
         (auto simp: main_eq print_image_to_network_printer_def body con)
    moreover have "snd (main w a) = Inr 0 \<and> \<not> reported (fst (main w a))"
      if "pr_image w img = None" "pr_ln w 1 = None" "pr_cut w = None" "pr_close w = None"
      using None tn
      by (simp add: main_eq print_image_to_network_printer_def body con send_ok [OF that]
          reported_def)
    ultimately show ?thesis using None by simp
  qed
qed

text \<open>
  Claim C7, witness: a printer library that raises \<^verbatim>\<open>KeyError\<close> for every profile name.
\<close>

theorem unknown_profile_falls_back_witness:
  "path_exists unknown_profile_world (arg_image_path sample_args) = Inr True
   \<and> im_open (imaging unknown_profile_world) (arg_image_path sample_args)
        = Inr (sample_image 1152 800)
   \<and> snd (normalize_image (imaging unknown_profile_world) (sample_image 1152 800)
        (arg_width sample_args)) = Inr (sample_image 576 400)
   \<and> network unknown_profile_world (arg_printer_ip sample_args) (arg_port sample_args)
        (Some (arg_profile sample_args)) = Some (Error ''KeyError'')
   \<and> is_Exception (Error ''KeyError'')
   \<and> network unknown_profile_world (arg_printer_ip sample_args) (arg_port sample_args) None = None
   \<and> pr_image unknown_profile_world (sample_image 576 400) = None
   \<and> pr_ln unknown_profile_world 1 = None
   \<and> pr_cut unknown_profile_world = None
   \<and> pr_close unknown_profile_world = None
   \<and> Output (WarnProfile (arg_profile sample_args))
        \<in> set (fst (main unknown_profile_world sample_args))
   \<and> Called (Network (arg_printer_ip sample_args) (arg_port sample_args) None) None
        \<in> set (fst (main unknown_profile_world sample_args))
   \<and> Called (PrImage (sample_image 576 400)) None
        \<in> set (fst (main unknown_profile_world sample_args))
   \<and> snd (main unknown_profile_world sample_args) = Inr 0
   \<and> \<not> reported (fst (main unknown_profile_world sample_args))"
proof -
  have a: "path_exists unknown_profile_world (arg_image_path sample_args) = Inr True"
    by (simp add: sample_world_eval unknown_profile_world_def)
  have b: "im_open (imaging unknown_profile_world) (arg_image_path sample_args)
        = Inr (sample_image 1152 800)"
    by (simp add: sample_world_eval unknown_profile_world_def sample_pil_def)
  have c: "snd (normalize_image (imaging unknown_profile_world) (sample_image 1152 800)
        (arg_width sample_args)) = Inr (sample_image 576 400)"
    by (simp add: sample_world_eval unknown_profile_world_def sample_normalize_eval)
  have d: "network unknown_profile_world (arg_printer_ip sample_args) (arg_port sample_args)
        (Some (arg_profile sample_args)) = Some (Error ''KeyError'')"
    by (simp add: sample_world_eval unknown_profile_world_def)
  have e: "is_Exception (Error ''KeyError'')" by simp
  have f: "network unknown_profile_world (arg_printer_ip sample_args) (arg_port sample_args) None
        = None"
    "pr_image unknown_profile_world (sample_image 576 400) = None"
    "pr_ln unknown_profile_world 1 = None"
    "pr_cut unknown_profile_world = None"
    "pr_close unknown_profile_world = None"
    by (simp_all add: sample_world_eval unknown_profile_world_def)
  from unknown_profile_falls_back [OF a b c d e] a b c d e f show ?thesis by simp
qed

subsection \<open>The order of the writes\<close>

text \<open>
  Claim C9: in a run that returns \<open>True\<close>, the calls on the printer are, in this order and
  with nothing else, \<^verbatim>\<open>image\<close> with the normalized image, \<^verbatim>\<open>ln(1)\<close>, \<^verbatim>\<open>cut()\<close>, and then
  \<^verbatim>\<open>close()\<close>.
\<close>

theorem successful_session_calls:
  assumes "print_image_to_network_printer w p ip port prof mw = (t, Inr True)"
  shows "\<exists>img0 img. im_open (imaging w) p = Inr img0
     \<and> snd (normalize_image (imaging w) img0 mw) = Inr img
     \<and> printer_calls t = [PrImage img, PrLn 1, PrCut, PrClose]"
proof -
  from assms have "try_body w p ip port prof mw = (t, Inr True)"
    by (auto simp: print_image_to_network_printer_def split: prod.splits sum.splits if_splits)
  from try_body_True [OF this] obtain img0 img tn tc ts where
    op: "im_open (imaging w) p = Inr img0"
    and n: "normalize_image (imaging w) img0 mw = (tn, Inr img)"
    and c: "connect w ip port prof = (tc, Inr ())"
    and s: "send w img = (ts, Inr ())"
    and t: "t = [Output (Opening p)] @ tn @ [Output (Connecting ip port prof)] @ tc @ ts
            @ [Output Success]"
    by blast
  from normalize_trace [of "imaging w" img0 mw] n have "printer_calls tn = []" by simp
  moreover from connect_trace [of w ip port prof] c have "printer_calls tc = []" by simp
  moreover from send_trace [OF s] have "printer_calls ts = [PrImage img, PrLn 1, PrCut, PrClose]"
    by simp
  ultimately have "printer_calls t = [PrImage img, PrLn 1, PrCut, PrClose]"
    by (simp add: t printer_calls_append)
  with op n show ?thesis by auto
qed

text \<open>
  Claim C9, witness: the run of the sample world.
\<close>

theorem successful_session_calls_witness:
  "snd (print_image_to_network_printer sample_world ''image.png'' ''192.168.1.100'' 9100
          ''TM-T20II'' 576) = Inr True
   \<and> printer_calls (fst (print_image_to_network_printer sample_world ''image.png''
          ''192.168.1.100'' 9100 ''TM-T20II'' 576))
       = [PrImage (sample_image 576 400), PrLn 1, PrCut, PrClose]"
proof -
  obtain t where run: "print_image_to_network_printer sample_world ''image.png''
      ''192.168.1.100'' 9100 ''TM-T20II'' 576 = (t, Inr True)"
    by (simp add: sample_run_eval)
  have op: "im_open (imaging sample_world) ''image.png'' = Inr (sample_image 1152 800)"
    by (simp add: sample_world_eval sample_pil_def)
  have n: "snd (normalize_image (imaging sample_world) (sample_image 1152 800) 576)
      = Inr (sample_image 576 400)"
    by (simp add: sample_world_eval sample_normalize_eval)
  from successful_session_calls [OF run] op n
  have "printer_calls t = [PrImage (sample_image 576 400), PrLn 1, PrCut, PrClose]"
    by auto
  with run show ?thesis by simp
qed

subsection \<open>What leaves the function\<close>




subsection \<open>The socket after a failed write\<close>

text \<open>
  Claim C4 says that the socket is released on every exit path.  The script closes the
  printer on line 62 only, at the end of the \<^verbatim>\<open>try\<close> body: when the connection was made and
  \<^verbatim>\<open>printer.image\<close> raises, the function returns \<open>False\<close> and the printer has not been
  closed.
\<close>

theorem write_failure_leaves_socket_open:
  "snd (print_image_to_network_printer broken_pipe_world ''image.png'' ''192.168.1.100'' 9100
          ''TM-T20II'' 576) = Inr False
   \<and> socket_open (fst (print_image_to_network_printer broken_pipe_world ''image.png''
          ''192.168.1.100'' 9100 ''TM-T20II'' 576)) False"
  by (simp add: sample_run_eval broken_pipe_world_def)

section \<open>The raster encoder\<close>

lemma length_concat_rows:
  assumes "\<And>y. y \<in> set ys \<Longrightarrow> length (f y) = k"
  shows "length (concat (map f ys)) = k * length ys"
  using assms by (induction ys) simp_all

lemma length_packed_row: "length (packed_row enc img y) = packed_row_width (width img)"
  by (simp add: packed_row_def)

lemma packed_row_cong:
  assumes "width img' = width img"
    and "\<And>x. int x < width img \<Longrightarrow> printed enc (content img') x y = printed enc (content img) x y"
  shows "packed_row enc img' y = packed_row enc img y"
proof -
  have "row_byte enc img' y i = row_byte enc img y i" for i
    unfolding row_byte_def
    by (rule arg_cong [where f = pack_bits], rule map_cong) (auto simp: assms)
  then show ?thesis by (simp add: packed_row_def assms(1))
qed

text \<open>
  Claim C3: when the encoder of the specification returns bytes for a bitmap of width \<open>w\<close>
  and height \<open>h\<close>, their number is the length of the header plus 4 plus \<open>ceil(w / 8) * h\<close>;
  and the output is determined by the input: any bitmap of the same size whose pixels inside
  that size are printed alike is encoded to the same bytes.
\<close>

theorem encode_length:
  assumes "encode enc img = Inr bs"
  shows "int (length bs)
       = int (length (header enc)) + 4 + \<lceil>rat_of_int (width img) / 8\<rceil> * height img
     \<and> (\<forall>img'. width img' = width img \<and> height img' = height img
           \<and> (\<forall>x y. int x < width img \<and> int y < height img \<longrightarrow>
                 printed enc (content img') x y = printed enc (content img) x y)
           \<longrightarrow> encode enc img' = Inr bs)"
proof -
  from assms have ok: "\<not> (width img < 1 \<or> height img < 1
         \<or> 65535 < packed_row_width (width img) \<or> 65535 < height img)"
    by (auto simp: encode_def split: if_splits)
  with assms have bs: "bs = header enc
                @ u16_le (packed_row_width (width img))
                @ u16_le (nat (height img))
                @ concat (map (packed_row enc img) [0..<nat (height img)])"
    by (simp add: encode_def)
  from ok have w: "1 \<le> width img" and h: "1 \<le> height img" by simp_all
  from w have "0 \<le> \<lceil>rat_of_int (width img) / 8\<rceil>"
    by (simp add: le_ceiling_iff [symmetric] less_ceiling_iff [symmetric]) 
  then have pw: "int (packed_row_width (width img)) = \<lceil>rat_of_int (width img) / 8\<rceil>"
    by (simp add: packed_row_width_def)
  have "length (concat (map (packed_row enc img) [0..<nat (height img)]))
      = packed_row_width (width img) * nat (height img)"
    using length_concat_rows [of "[0..<nat (height img)]" "packed_row enc img"
        "packed_row_width (width img)"]
    by (simp add: length_packed_row)
  then have "length bs
      = length (header enc) + 4 + packed_row_width (width img) * nat (height img)"
    by (simp add: bs u16_le_def)
  then have "int (length bs)
      = int (length (header enc)) + 4 + int (packed_row_width (width img)) * int (nat (height img))"
    by simp
  with pw h have len: "int (length bs)
       = int (length (header enc)) + 4 + \<lceil>rat_of_int (width img) / 8\<rceil> * height img"
    by simp
  have "encode enc img' = Inr bs"
    if eq: "width img' = width img" "height img' = height img"
      and px: "\<forall>x y. int x < width img \<and> int y < height img \<longrightarrow>
                 printed enc (content img') x y = printed enc (content img) x y"
    for img' :: "'a image"
  proof -
    have "packed_row enc img' y = packed_row enc img y" if "y < nat (height img)" for y
      using that px by (intro packed_row_cong eq) auto
    then have "concat (map (packed_row enc img') [0..<nat (height img)])
        = concat (map (packed_row enc img) [0..<nat (height img)])"
      by (intro arg_cong [where f = concat] map_cong) simp_all
    with ok show ?thesis by (simp add: encode_def eq bs)
  qed
  with len show ?thesis by blast
qed

text \<open>
  Claim C3, witness: a 10 by 3 checkerboard, two bytes a row, fourteen bytes in all; the
  same pixels in another mode give the same bytes.
\<close>

theorem encode_length_witness:
  "encode sample_encoder (sample_image 10 3)
     = Inr [0x1D, 0x76, 0x30, 0x00, 2, 0, 3, 0, 0xAA, 0x80, 0x55, 0x40, 0xAA, 0x80]
   \<and> int (length [0x1D, 0x76, 0x30, 0x00, 2, 0, 3, 0, 0xAA, 0x80, 0x55, 0x40, 0xAA, 0x80 :: byte])
       = int (length (header sample_encoder)) + 4
           + \<lceil>rat_of_int (width (sample_image 10 3)) / 8\<rceil> * height (sample_image 10 3)
   \<and> encode sample_encoder \<lparr>width = 10, height = 3, mode = ''L'', content = ()\<rparr>
       = encode sample_encoder (sample_image 10 3)"
proof -
  have upt8: "[0..<8] = [0, 1, 2, 3, 4, 5, 6, 7]" by (simp add: upt_rec)
  have upt3: "[0..<3] = [0, 1, 2]" by (simp add: upt_rec)
  have upt2: "[0..<2] = [0, 1]" by (simp add: upt_rec)
  have a: "encode sample_encoder (sample_image 10 3)
     = Inr [0x1D, 0x76, 0x30, 0x00, 2, 0, 3, 0, 0xAA, 0x80, 0x55, 0x40, 0xAA, 0x80]"
    by (simp add: encode_def sample_encoder_def sample_image_def packed_row_width_def
        ceiling_rat_numeral_div u16_le_def packed_row_def row_byte_def pack_bits_def upt8
        upt3 upt2)
  from encode_length [OF a]
  have "encode sample_encoder \<lparr>width = 10, height = 3, mode = ''L'', content = ()\<rparr>
       = Inr [0x1D, 0x76, 0x30, 0x00, 2, 0, 3, 0, 0xAA, 0x80, 0x55, 0x40, 0xAA, 0x80]"
    by (simp add: sample_image_def)
  with encode_length [OF a] a show ?thesis by simp
qed

end
